theory Spec2Isabelle
  imports Complex_Main "HOL-Library.Log_Nat"
begin

section \<open>Strings as the script uses them\<close>

text \<open>
  The script frontend/scripts/main.js works on JavaScript strings. They are modelled as
  \<^typ>\<open>string\<close>, one \<^typ>\<open>char\<close> per code unit; code units above 0xFF are outside the
  model. Of the characters that JavaScript counts as line terminators or as white space,
  the ones below 0x100 are listed here.
\<close>

abbreviation NL :: char where
  "NL \<equiv> CHR 0x0A"

definition isLineTerminator :: "char \<Rightarrow> bool" where
  "isLineTerminator c \<longleftrightarrow> c = CHR 0x0A \<or> c = CHR 0x0D"

definition isWhiteSpace :: "char \<Rightarrow> bool" where
  "isWhiteSpace c \<longleftrightarrow>
     c = CHR 0x09 \<or> c = CHR 0x0A \<or> c = CHR 0x0B \<or> c = CHR 0x0C \<or> c = CHR 0x0D \<or>
     c = CHR 0x20 \<or> c = CHR 0xA0"

text \<open>\<^verbatim>\<open>s.startsWith(p)\<close>\<close>

definition startsWith :: "string \<Rightarrow> string \<Rightarrow> bool" where
  "startsWith s p \<longleftrightarrow> take (length p) s = p"

text \<open>\<^verbatim>\<open>s.trim()\<close>\<close>

definition trim :: "string \<Rightarrow> string" where
  "trim s = rev (dropWhile isWhiteSpace (rev (dropWhile isWhiteSpace s)))"

text \<open>\<^verbatim>\<open>s.split(NL)\<close>: the pieces between the newlines; the empty string gives one empty piece.\<close>

fun splitLines :: "string \<Rightarrow> string list" where
  "splitLines [] = [[]]"
| "splitLines (c # cs) =
     (if c = NL then [] # splitLines cs
      else (let ls = splitLines cs in (c # hd ls) # tl ls))"

text \<open>
  \<^verbatim>\<open>s.split(NL + NL)\<close>: the separator is looked for from the left and the search goes on
  behind each separator found, so three newlines in a row are one separator and one
  newline that starts the next piece.
\<close>

fun splitParagraphs :: "string \<Rightarrow> string list" where
  "splitParagraphs [] = [[]]"
| "splitParagraphs [c] = [[c]]"
| "splitParagraphs (a # b # cs) =
     (if a = NL \<and> b = NL then [] # splitParagraphs cs
      else (let ps = splitParagraphs (b # cs) in (a # hd ps) # tl ps))"

text \<open>\<^verbatim>\<open>xs.join(sep)\<close>\<close>

fun join :: "string \<Rightarrow> string list \<Rightarrow> string" where
  "join sep [] = []"
| "join sep [x] = x"
| "join sep (x # y # ys) = x @ sep @ join sep (y # ys)"

text \<open>
  The lazy group of the two regular expressions: \<open>lazyUntil dot stop s\<close> reads the shortest
  run of characters accepted by \<open>dot\<close> that is followed by \<open>stop\<close>, and returns the run and
  the text behind \<open>stop\<close>; \<open>None\<close> when there is no such run.
\<close>

fun lazyUntil :: "(char \<Rightarrow> bool) \<Rightarrow> string \<Rightarrow> string \<Rightarrow> (string \<times> string) option" where
  "lazyUntil dot stop [] = (if stop = [] then Some ([], []) else None)"
| "lazyUntil dot stop (c # cs) =
     (if startsWith (c # cs) stop then Some ([], drop (length stop) (c # cs))
      else if dot c then
        (case lazyUntil dot stop cs of
           None \<Rightarrow> None
         | Some (b, r) \<Rightarrow> Some (c # b, r))
      else None)"

lemma lazyUntil_length:
  "lazyUntil dot stop s = Some (b, r) \<Longrightarrow> length b + length stop + length r = length s"
proof (induction s arbitrary: b r)
  case Nil
  then show ?case by (simp split: if_splits)
next
  case (Cons c cs)
  show ?case
  proof (cases "startsWith (c # cs) stop")
    case True
    then have "length (take (length stop) (c # cs)) = length stop"
      by (simp only: startsWith_def)
    then have "length stop \<le> length (c # cs)"
      by (simp add: min_def split: if_splits)
    with True Cons.prems show ?thesis by auto
  next
    case False
    with Cons.prems obtain b' where
      "lazyUntil dot stop cs = Some (b', r)" and "b = c # b'"
      by (auto split: if_splits option.splits)
    with Cons.IH show ?thesis by fastforce
  qed
qed

section \<open>formatRecommendation\<close>

text \<open>
  First pass, \<^verbatim>\<open>replace(/\*\*(.*?)\*\*/g, "<strong>$1</strong>")\<close>. The dot of this
  expression does not accept a line terminator. The search goes from left to right; after
  a match it goes on behind the match, and where no match starts the character is kept.
\<close>

function emphasisPass :: "string \<Rightarrow> string" where
  "emphasisPass [] = []"
| "emphasisPass (c # cs) =
     (if startsWith (c # cs) ''**'' then
        (case lazyUntil (\<lambda>x. \<not> isLineTerminator x) ''**'' (drop 2 (c # cs)) of
           Some (b, r) \<Rightarrow> ''<strong>'' @ b @ ''</strong>'' @ emphasisPass r
         | None \<Rightarrow> c # emphasisPass cs)
      else c # emphasisPass cs)"
  by pat_completeness auto
termination
proof (relation "measure length")
  show "wf (measure length)" by simp
next
  fix c :: char and cs x2 x y
  assume "lazyUntil (\<lambda>x. \<not> isLineTerminator x) ''**'' (drop 2 (c # cs)) = Some x2"
    and "(x, y) = x2"
  then have "lazyUntil (\<lambda>x. \<not> isLineTerminator x) ''**'' (drop 2 (c # cs)) = Some (x, y)"
    by simp
  from lazyUntil_length [OF this] have "length y \<le> length (drop 2 (c # cs))"
    by simp
  then show "(y, c # cs) \<in> measure length" by simp
qed simp_all

text \<open>
  Second pass: every line that starts with a hyphen becomes a list item of the rest of the
  line, trimmed.
\<close>

definition listItemLine :: "string \<Rightarrow> string" where
  "listItemLine line =
     (if startsWith line ''-'' then ''<li>'' @ trim (drop 1 line) @ ''</li>'' else line)"

definition listItemPass :: "string \<Rightarrow> string" where
  "listItemPass s = join [NL] (map listItemLine (splitLines s))"

text \<open>
  Third pass, \<^verbatim>\<open>replace(/(<li>.*?<\/li>)/gs, "<ul>$&</ul>")\<close>: with the flag s the dot
  accepts every character.
\<close>

function wrapListItems :: "string \<Rightarrow> string" where
  "wrapListItems [] = []"
| "wrapListItems (c # cs) =
     (if startsWith (c # cs) ''<li>'' then
        (case lazyUntil (\<lambda>x. True) ''</li>'' (drop 4 (c # cs)) of
           Some (b, r) \<Rightarrow> ''<ul><li>'' @ b @ ''</li></ul>'' @ wrapListItems r
         | None \<Rightarrow> c # wrapListItems cs)
      else c # wrapListItems cs)"
  by pat_completeness auto
termination
proof (relation "measure length")
  show "wf (measure length)" by simp
next
  fix c :: char and cs x2 x y
  assume "lazyUntil (\<lambda>x. True) ''</li>'' (drop 4 (c # cs)) = Some x2"
    and "(x, y) = x2"
  then have "lazyUntil (\<lambda>x. True) ''</li>'' (drop 4 (c # cs)) = Some (x, y)"
    by simp
  from lazyUntil_length [OF this] have "length y \<le> length (drop 4 (c # cs))"
    by simp
  then show "(y, c # cs) \<in> measure length" by simp
qed simp_all

text \<open>
  Fourth pass: the end of one list, a newline and the start of the next list are removed,
  which joins the two lists.
\<close>

definition listSeam :: string where
  "listSeam = ''</ul>'' @ [NL] @ ''<ul>''"

function mergeLists :: "string \<Rightarrow> string" where
  "mergeLists [] = []"
| "mergeLists (c # cs) =
     (if startsWith (c # cs) listSeam then mergeLists (drop (length listSeam) (c # cs))
      else c # mergeLists cs)"
  by pat_completeness auto
termination
  by (relation "measure length") (auto simp: listSeam_def)

text \<open>
  Last pass: the text is split at blank lines; a piece that starts with a list, white
  space aside, is kept as it is, and every other piece is trimmed and wrapped as a
  paragraph.
\<close>

definition paragraphOf :: "string \<Rightarrow> string" where
  "paragraphOf para =
     (if startsWith (trim para) ''<ul>'' then para else ''<p>'' @ trim para @ ''</p>'')"

definition formatRecommendation :: "string \<Rightarrow> string" where
  "formatRecommendation text =
     (if text = [] then []
      else join [] (map paragraphOf
             (splitParagraphs (mergeLists (wrapListItems (listItemPass (emphasisPass text)))))))"

text \<open>
  The pieces that the last pass maps over, before they are joined, are the blocks of the
  result: a piece kept as it is is a list block, a wrapped piece is a paragraph with the
  trimmed piece as its content.
\<close>

datatype contentBlock = Paragraph string | ListBlock string

definition blockOf :: "string \<Rightarrow> contentBlock" where
  "blockOf para =
     (if startsWith (trim para) ''<ul>'' then ListBlock para else Paragraph (trim para))"

fun render :: "contentBlock \<Rightarrow> string" where
  "render (Paragraph content) = ''<p>'' @ content @ ''</p>''"
| "render (ListBlock html) = html"

definition recommendationBlocks :: "string \<Rightarrow> contentBlock list" where
  "recommendationBlocks text =
     (if text = [] then []
      else map blockOf
             (splitParagraphs (mergeLists (wrapListItems (listItemPass (emphasisPass text))))))"

section \<open>validateImageFile\<close>

record imageFile =
  file_type :: string
  file_size :: nat

record validation =
  valid :: bool
  error :: "string option"

definition maxSize :: nat where
  "maxSize = 10 * 1024 * 1024"

definition allowedTypes :: "string list" where
  "allowedTypes = [''image/jpeg'', ''image/png'']"

text \<open>The argument is \<open>None\<close> when no file is given (the test \<^verbatim>\<open>!file\<close> of the source).\<close>

definition validateImageFile :: "imageFile option \<Rightarrow> validation" where
  "validateImageFile f =
     (case f of
        None \<Rightarrow> \<lparr>valid = False, error = Some ''Please select an image file''\<rparr>
      | Some file \<Rightarrow>
          if file_type file \<notin> set allowedTypes
          then \<lparr>valid = False, error = Some ''Only JPG and PNG files are supported''\<rparr>
          else if file_size file > maxSize
          then \<lparr>valid = False, error = Some ''File size must be under 10MB''\<rparr>
          else \<lparr>valid = True, error = None\<rparr>)"

section \<open>displaySeverityBar\<close>

text \<open>
  A JavaScript number is a binary64 value. The finite ones are rational numbers, and the
  comparisons of the source are exact on them. Division and multiplication round their
  exact result to the nearest binary64 value, to the even significand on a tie: \<open>fl64\<close>
  is this rounding for results of magnitude below \<open>2 ^ 1024\<close>, with the fixed spacing
  \<open>2 ^ - 1074\<close> of the values below \<open>2 ^ - 1022\<close>. Infinite values and NaN are outside
  the model.
\<close>

definition pow2 :: "int \<Rightarrow> rat" where
  "pow2 e = (if 0 \<le> e then 2 ^ nat e else 1 / 2 ^ nat (- e))"

text \<open>For \<open>x > 0\<close>, the exponent \<open>e\<close> with \<open>2 ^ e \<le> x < 2 ^ (e + 1)\<close>.\<close>

definition binade :: "rat \<Rightarrow> int" where
  "binade x =
     (if 1 \<le> x then int (floorlog 2 (nat \<lfloor>x\<rfloor>)) - 1
      else (let k = int (floorlog 2 (nat \<lfloor>1 / x\<rfloor>))
            in if x = pow2 (1 - k) then 1 - k else - k))"

definition roundHalfEven :: "rat \<Rightarrow> int" where
  "roundHalfEven r =
     (let f = \<lfloor>r\<rfloor>; d = r - of_int f
      in if d < 1 / 2 then f
         else if 1 / 2 < d then f + 1
         else if even f then f else f + 1)"

definition fl64 :: "rat \<Rightarrow> rat" where
  "fl64 x =
     (if x = 0 then 0
      else (let q = pow2 (max (binade \<bar>x\<bar>) (- 1022) - 52)
            in of_int (roundHalfEven (x / q)) * q))"

text \<open>
  The element of the bar: \<open>style_width\<close> is the number that the source writes in front of
  the percent sign.
\<close>

record barElement =
  style_width :: rat
  style_backgroundColor :: string

text \<open>The colour is chosen by the first test that holds, in the order of the source.\<close>

datatype severityBranch = AtLeast4 | Exactly3 | Above2 | Otherwise

definition severityBranch :: "rat \<Rightarrow> severityBranch" where
  "severityBranch severity =
     (if severity \<ge> 4 then AtLeast4
      else if severity = 3 then Exactly3
      else if severity > 2 then Above2
      else Otherwise)"

fun branchColor :: "severityBranch \<Rightarrow> string" where
  "branchColor AtLeast4 = ''#f44336''"
| "branchColor Exactly3 = ''#ffc107''"
| "branchColor Above2 = ''#ff9800''"
| "branchColor Otherwise = ''#4caf50''"

definition percentage :: "rat \<Rightarrow> rat" where
  "percentage severity = fl64 (fl64 (severity / 5) * 100)"

definition displaySeverityBar :: "rat \<Rightarrow> barElement \<Rightarrow> barElement" where
  "displaySeverityBar severity barElement =
     barElement\<lparr>style_width := percentage severity,
                style_backgroundColor := branchColor (severityBranch severity)\<rparr>"

section \<open>The page and the upload handler\<close>

text \<open>
  The handler works on the elements of the page, on the storage of the browser and on the
  network. The state below holds what the functions of the script read and write. An
  element that the script tests before use (\<^verbatim>\<open>if (element)\<close>) is an option, \<open>None\<close>
  when the page has no such element; for the containers the value is \<open>style.display\<close>.
  The elements that displayResults writes without a test are taken as present, except
  the results container, which the other functions test.
\<close>

record button =
  disabled :: bool
  opacity :: string

record prediction =
  disease_name :: string
  confidence :: rat
  severity_level :: rat
  image_quality :: string
  gradcam_image :: "string option"

record recommendation =
  recommendation_text :: string
  timestamp :: string

text \<open>
  The response envelope. \<open>success\<close> is the truth value of \<^verbatim>\<open>data.success\<close>; \<open>env_error\<close>,
  \<open>env_prediction\<close> and \<open>env_recommendation\<close> are \<open>None\<close> when the field is absent or null.
\<close>

record envelope =
  success :: bool
  env_error :: "string option"
  env_prediction :: "prediction option"
  env_recommendation :: "recommendation option"

text \<open>
  What the call of fetch comes to: it rejects, or it gives a response with its flag
  \<^verbatim>\<open>response.ok\<close> (status 200 to 299) and a body. The body is \<open>Unparsable\<close> when
  \<^verbatim>\<open>response.json()\<close> rejects or gives null, so that the read of \<^verbatim>\<open>data.success\<close>
  throws.
\<close>

datatype responseBody = Unparsable | Json envelope

datatype fetchOutcome = NetworkFailure | Response bool responseBody

record request =
  image :: "imageFile option"
  language_code :: string

text \<open>
  The elements that show a result. \<open>confidenceValue\<close> is the text the source writes, the
  confidence with two decimals and a percent sign. \<open>severityValue\<close> is the number that the
  source writes in front of "/5". \<open>qualityValue\<close> is the text as code units, since the
  capital of two of the letters below 0x100 lies above 0xFF. \<open>gradcamImage\<close> is the
  source of the image, \<open>None\<close> until one is set.
\<close>

record resultView =
  diseaseName :: string
  confidenceValue :: string
  severityValue :: rat
  qualityValue :: "nat list"
  severityBar :: barElement
  gradcamImage :: "string option"
  recommendationText :: string

record page =
  imageInput_files :: "imageFile list"
  languageCode :: "string option"
  uploadForm :: "string option"
  loadingContainer :: "string option"
  errorContainer :: "string option"
  resultsContainer :: "string option"
  errorMessage :: "string option"
  uploadBtn :: "button option"
  view :: resultView
  lastResultData :: "(prediction \<times> recommendation) option"
  preferredLanguage :: "string option"
  fetches :: "request list"

text \<open>\<^verbatim>\<open>if (element) element.style.display = d\<close>\<close>

definition setDisplay :: "string \<Rightarrow> string option \<Rightarrow> string option" where
  "setDisplay d element = (case element of None \<Rightarrow> None | Some _ \<Rightarrow> Some d)"

definition setButton :: "bool \<Rightarrow> string \<Rightarrow> button option \<Rightarrow> button option" where
  "setButton dis op element =
     (case element of None \<Rightarrow> None | Some b \<Rightarrow> Some (b\<lparr>disabled := dis, opacity := op\<rparr>))"

definition showLoading :: "page \<Rightarrow> page" where
  "showLoading w =
     w\<lparr>loadingContainer := setDisplay ''block'' (loadingContainer w),
       errorContainer := setDisplay ''none'' (errorContainer w),
       resultsContainer := setDisplay ''none'' (resultsContainer w),
       uploadBtn := setButton True ''0.5'' (uploadBtn w)\<rparr>"

definition hideLoading :: "page \<Rightarrow> page" where
  "hideLoading w =
     w\<lparr>loadingContainer := setDisplay ''none'' (loadingContainer w),
       uploadBtn := setButton False ''1'' (uploadBtn w)\<rparr>"

definition showError :: "string \<Rightarrow> page \<Rightarrow> page" where
  "showError message w =
     w\<lparr>errorMessage := (case errorMessage w of None \<Rightarrow> None | Some _ \<Rightarrow> Some message),
       errorContainer := setDisplay ''block'' (errorContainer w),
       loadingContainer := setDisplay ''none'' (loadingContainer w),
       resultsContainer := setDisplay ''none'' (resultsContainer w),
       uploadBtn := setButton False ''1'' (uploadBtn w)\<rparr>"

text \<open>
  \<^verbatim>\<open>c.toUpperCase()\<close> for one character below 0x100, as code units: the letters a to z
  and the accented letters from 0xE0 to 0xFE (the division sign 0xF7 aside) move down by
  0x20, the sharp s becomes SS, and the capitals of the micro sign and of the y with
  diaeresis are 0x39C and 0x178.
\<close>

definition toUpperCase :: "char \<Rightarrow> nat list" where
  "toUpperCase c =
     (let n = (of_char c :: nat)
      in if 97 \<le> n \<and> n \<le> 122 then [n - 32]
         else if n = 181 then [924]
         else if n = 223 then [83, 83]
         else if 224 \<le> n \<and> n \<le> 254 \<and> n \<noteq> 247 then [n - 32]
         else if n = 255 then [376]
         else [n])"

text \<open>\<^verbatim>\<open>s.charAt(0).toUpperCase() + s.slice(1)\<close>\<close>

definition capitalize :: "string \<Rightarrow> nat list" where
  "capitalize s =
     (case s of
        [] \<Rightarrow> []
      | c # cs \<Rightarrow> toUpperCase c @ map of_char cs)"

text \<open>The decimal digits of a natural number.\<close>

function showNat :: "nat \<Rightarrow> string" where
  "showNat n =
     (if n < 10 then [char_of (48 + n)]
      else showNat (n div 10) @ [char_of (48 + n mod 10)])"
  by pat_completeness auto
termination
  by (relation "measure id") auto

declare showNat.simps [simp del]

text \<open>
  \<^verbatim>\<open>x.toFixed(2)\<close> for a number of magnitude below \<open>10 ^ 21\<close>: the sign, then the
  integer nearest to a hundred times the magnitude, the larger one on a tie, written with
  three digits at least and a point in front of the last two.
\<close>

definition toFixed2 :: "rat \<Rightarrow> string" where
  "toFixed2 x =
     (let n = nat \<lfloor>\<bar>x\<bar> * 100 + 1 / 2\<rfloor>;
          ds = showNat n;
          m = replicate (3 - length ds) (CHR ''0'') @ ds;
          k = length m - 2
      in (if x < 0 then ''-'' else []) @ take k m @ ''.'' @ drop k m)"

text \<open>
  displayResults returns the page and whether it threw. It throws at the read of a field
  of a missing prediction or recommendation and at the write to a missing results
  container; what it wrote before stays written.
\<close>

definition displayResults :: "envelope \<Rightarrow> page \<Rightarrow> page \<times> bool" where
  "displayResults data w =
     (let w1 = w\<lparr>uploadForm := setDisplay ''none'' (uploadForm w)\<rparr>
      in case env_prediction data of
           None \<Rightarrow> (w1, True)
         | Some p \<Rightarrow>
             (let v1 = (view w1)\<lparr>diseaseName := disease_name p,
                                  confidenceValue := toFixed2 (confidence p) @ ''%'',
                                  severityValue := severity_level p,
                                  qualityValue := capitalize (image_quality p)\<rparr>;
                  v2 = v1\<lparr>severityBar := displaySeverityBar (severity_level p) (severityBar v1)\<rparr>;
                  v3 = (case gradcam_image p of
                          None \<Rightarrow> v2
                        | Some g \<Rightarrow>
                            if g = [] then v2
                            else v2\<lparr>gradcamImage := Some (''data:image/png;base64,'' @ g)\<rparr>);
                  w2 = w1\<lparr>view := v3\<rparr>
              in case env_recommendation data of
                   None \<Rightarrow> (w2, True)
                 | Some r \<Rightarrow>
                     (let w3 = w2\<lparr>view := (view w2)\<lparr>recommendationText :=
                                    formatRecommendation (recommendation_text r)\<rparr>,
                                  lastResultData := Some (p, r)\<rparr>
                      in case resultsContainer w3 of
                           None \<Rightarrow> (w3, True)
                         | Some _ \<Rightarrow> (w3\<lparr>resultsContainer := Some ''block''\<rparr>, False))))"

text \<open>
  handleFileUpload runs up to the call of fetch, waits, and goes on when the call
  settles. \<open>handleFileUpload_begin\<close> is the part before the wait: it returns the page and
  the request it handed to fetch, \<open>None\<close> when it returned before that.
\<close>

definition selectedLanguage :: "page \<Rightarrow> string" where
  "selectedLanguage w =
     (case languageCode w of
        None \<Rightarrow> ''en''
      | Some v \<Rightarrow> if v = [] then ''en'' else v)"

text \<open>\<^verbatim>\<open>imageInput.files[0]\<close>, undefined when the list is empty.\<close>

definition firstFile :: "page \<Rightarrow> imageFile option" where
  "firstFile w = (case imageInput_files w of [] \<Rightarrow> None | x # _ \<Rightarrow> Some x)"

definition handleFileUpload_begin :: "page \<Rightarrow> page \<times> request option" where
  "handleFileUpload_begin w =
     (let f = firstFile w;
          validation = validateImageFile f
      in if \<not> valid validation
         then (showError (case error validation of None \<Rightarrow> [] | Some m \<Rightarrow> m) w, None)
         else
           (let lc = selectedLanguage w;
                w1 = w\<lparr>preferredLanguage := Some lc\<rparr>;
                w2 = showLoading w1;
                formData = \<lparr>image = f, language_code = lc\<rparr>
            in (w2\<lparr>fetches := fetches w2 @ [formData]\<rparr>, Some formData)))"

definition genericFailure :: string where
  "genericFailure = ''Something went wrong. Please refresh and try again''"

text \<open>\<^verbatim>\<open>data.error || "Upload failed. Please try again"\<close>: the empty string counts as false.\<close>

definition failureMessage :: "envelope \<Rightarrow> string" where
  "failureMessage data =
     (case env_error data of
        None \<Rightarrow> ''Upload failed. Please try again''
      | Some e \<Rightarrow> if e = [] then ''Upload failed. Please try again'' else e)"

definition handleFileUpload_settle :: "fetchOutcome \<Rightarrow> page \<Rightarrow> page" where
  "handleFileUpload_settle outcome w =
     (case outcome of
        NetworkFailure \<Rightarrow> hideLoading (showError genericFailure w)
      | Response ok body \<Rightarrow>
          (case body of
             Unparsable \<Rightarrow> hideLoading (showError genericFailure w)
           | Json data \<Rightarrow>
               if \<not> ok \<or> \<not> success data
               then hideLoading (showError (failureMessage data) w)
               else (case displayResults data w of
                       (w', True) \<Rightarrow> hideLoading (showError genericFailure w')
                     | (w', False) \<Rightarrow> hideLoading w')))"

text \<open>One whole run of the handler, with the outcome of its call of fetch.\<close>

definition handleFileUpload :: "fetchOutcome \<Rightarrow> page \<Rightarrow> page" where
  "handleFileUpload outcome w =
     (case handleFileUpload_begin w of
        (w', None) \<Rightarrow> w'
      | (w', Some _) \<Rightarrow> handleFileUpload_settle outcome w')"

text \<open>
  Modelled from the spec: the page that binds handleFileUpload to the upload button is not
  among the sources. The spec has submit rejected while a submission is in flight,
  "enforced by disabling the action trigger": \<open>submit\<close> is the press of the upload button,
  which runs the handler when the button exists and is not disabled, and does nothing
  otherwise.
\<close>

definition submit :: "page \<Rightarrow> page \<times> request option" where
  "submit w =
     (case uploadBtn w of
        None \<Rightarrow> (w, None)
      | Some b \<Rightarrow> if disabled b then (w, None) else handleFileUpload_begin w)"

text \<open>
  The states of a session are read off the page. A submission is in flight from
  showLoading to the settling of the request: the page is then as showLoading leaves it.
\<close>

definition inSubmitting :: "page \<Rightarrow> bool" where
  "inSubmitting w \<longleftrightarrow> showLoading w = w"

text \<open>
  A session has failed with a message when the page shows it: the error box is displayed
  with the message in it, the spinner and the results are hidden, and the upload button
  can be pressed again.
\<close>

definition inFailed :: "string \<Rightarrow> page \<Rightarrow> bool" where
  "inFailed message w \<longleftrightarrow>
     errorMessage w = Some message \<and>
     errorContainer w = Some ''block'' \<and>
     loadingContainer w = Some ''none'' \<and>
     resultsContainer w = Some ''none'' \<and>
     map_option disabled (uploadBtn w) = Some False"

text \<open>
  The same for a page that lacks some of the elements: \<open>failedFrom message w w'\<close> tells
  what the page \<open>w'\<close> shows, element by element, where every element of the page \<open>w\<close>
  that exists has been set to show the failure, and that the file held, the stored
  language, the requests sent and the last result are those of \<open>w\<close>.
\<close>

definition failedFrom :: "string \<Rightarrow> page \<Rightarrow> page \<Rightarrow> bool" where
  "failedFrom message w w' \<longleftrightarrow>
     errorMessage w' = map_option (\<lambda>_. message) (errorMessage w) \<and>
     errorContainer w' = map_option (\<lambda>_. ''block'') (errorContainer w) \<and>
     loadingContainer w' = map_option (\<lambda>_. ''none'') (loadingContainer w) \<and>
     resultsContainer w' = map_option (\<lambda>_. ''none'') (resultsContainer w) \<and>
     uploadBtn w' = map_option (\<lambda>b. b\<lparr>disabled := False, opacity := ''1''\<rparr>) (uploadBtn w) \<and>
     imageInput_files w' = imageInput_files w \<and>
     preferredLanguage w' = preferredLanguage w \<and>
     fetches w' = fetches w \<and>
     lastResultData w' = lastResultData w"

definition hasUploadElements :: "page \<Rightarrow> bool" where
  "hasUploadElements w \<longleftrightarrow>
     errorMessage w \<noteq> None \<and> errorContainer w \<noteq> None \<and> loadingContainer w \<noteq> None \<and>
     resultsContainer w \<noteq> None \<and> uploadBtn w \<noteq> None"

section \<open>Markers of emphasis\<close>

text \<open>\<open>hasMarker s\<close>: two asterisks in a row occur somewhere in \<open>s\<close>.\<close>

fun hasMarker :: "string \<Rightarrow> bool" where
  "hasMarker [] = False"
| "hasMarker (c # cs) = (startsWith (c # cs) ''**'' \<or> hasMarker cs)"

text \<open>
  \<open>loneMarkers seen s\<close>: reading \<open>s\<close> from the left and taking each pair of asterisks as one
  marker, no line of \<open>s\<close> holds two markers; \<open>seen\<close> tells whether the line read so far
  holds one already.
\<close>

fun loneMarkers :: "bool \<Rightarrow> string \<Rightarrow> bool" where
  "loneMarkers seen [] = True"
| "loneMarkers seen [c] = True"
| "loneMarkers seen (a # b # cs) =
     (if isLineTerminator a then loneMarkers False (b # cs)
      else if a = CHR ''*'' \<and> b = CHR ''*'' then \<not> seen \<and> loneMarkers True cs
      else loneMarkers seen (b # cs))"

section \<open>Sample inputs\<close>

definition pngFile :: imageFile where
  "pngFile = \<lparr>file_type = ''image/png'', file_size = 2000000\<rparr>"

definition gifFile :: imageFile where
  "gifFile = \<lparr>file_type = ''image/gif'', file_size = 1000\<rparr>"

definition hugeFile :: imageFile where
  "hugeFile = \<lparr>file_type = ''image/jpeg'', file_size = 10485761\<rparr>"

definition emptyBar :: barElement where
  "emptyBar = \<lparr>style_width = 0, style_backgroundColor = []\<rparr>"

text \<open>
  The upload page with a PNG file of 2 MB chosen, the language hi selected and the
  language en stored by an earlier visit.
\<close>

definition samplePage :: page where
  "samplePage =
     \<lparr>imageInput_files = [pngFile], languageCode = Some ''hi'', uploadForm = Some [],
      loadingContainer = Some ''none'', errorContainer = Some ''none'',
      resultsContainer = Some ''none'', errorMessage = Some [],
      uploadBtn = Some \<lparr>disabled = False, opacity = ''1''\<rparr>,
      view = \<lparr>diseaseName = [], confidenceValue = [], severityValue = 0, qualityValue = [],
              severityBar = emptyBar, gradcamImage = None, recommendationText = []\<rparr>,
      lastResultData = None, preferredLanguage = Some ''en'', fetches = []\<rparr>"

text \<open>The same page with no language selected and hi stored.\<close>

definition noLanguagePage :: page where
  "noLanguagePage = samplePage\<lparr>languageCode := None, preferredLanguage := Some ''hi''\<rparr>"

text \<open>The same page with no file chosen.\<close>

definition noFilePage :: page where
  "noFilePage = samplePage\<lparr>imageInput_files := []\<rparr>"

definition lowQuality :: envelope where
  "lowQuality =
     \<lparr>success = False, env_error = Some ''Low image quality'',
      env_prediction = None, env_recommendation = None\<rparr>"

definition emptyError :: envelope where
  "emptyError =
     \<lparr>success = False, env_error = Some [], env_prediction = None, env_recommendation = None\<rparr>"

text \<open>A text with a marker alone on its first line and a pair on its second line.\<close>

definition twoLineText :: string where
  "twoLineText = ''**x'' @ [NL] @ ''**a**''"

definition treatmentText :: string where
  "treatmentText = ''**Apply fungicide**'' @ [NL] @ ''- Water less'' @ [NL] @ ''- Remove leaves''"

definition treatmentTextBlankLine :: string where
  "treatmentTextBlankLine =
     ''**Apply fungicide**'' @ [NL, NL] @ ''- Water less'' @ [NL] @ ''- Remove leaves''"

section \<open>The file validator\<close>

text \<open>
  Claim C5. validateImageFile applies its three rules in order and the first failure
  wins: no file is rejected with the reason for a missing file; a file whose type is
  neither image/jpeg nor image/png is rejected with the reason for an unsupported format,
  whatever its size; a file of an allowed type with at most 10 * 1024 * 1024 bytes is
  accepted, and a larger one of an allowed type is rejected as too large. The result is a
  function of the argument alone.
\<close>

theorem validateImageFile_rules:
  "validateImageFile None = \<lparr>valid = False, error = Some ''Please select an image file''\<rparr>
   \<and> (file_type f \<noteq> ''image/jpeg'' \<and> file_type f \<noteq> ''image/png'' \<longrightarrow>
        validateImageFile (Some f) =
          \<lparr>valid = False, error = Some ''Only JPG and PNG files are supported''\<rparr>)
   \<and> ((file_type g = ''image/jpeg'' \<or> file_type g = ''image/png'') \<and>
        file_size g \<le> 10 * 1024 * 1024 \<longrightarrow>
        validateImageFile (Some g) = \<lparr>valid = True, error = None\<rparr>)
   \<and> ((file_type h = ''image/jpeg'' \<or> file_type h = ''image/png'') \<and>
        10 * 1024 * 1024 < file_size h \<longrightarrow>
        validateImageFile (Some h) =
          \<lparr>valid = False, error = Some ''File size must be under 10MB''\<rparr>)"
  by (auto simp: validateImageFile_def allowedTypes_def maxSize_def)

theorem validateImageFile_rules_witness:
  "file_type gifFile \<noteq> ''image/jpeg'' \<and> file_type gifFile \<noteq> ''image/png''
   \<and> validateImageFile (Some gifFile) =
        \<lparr>valid = False, error = Some ''Only JPG and PNG files are supported''\<rparr>
   \<and> file_type pngFile = ''image/png'' \<and> file_size pngFile \<le> 10 * 1024 * 1024
   \<and> validateImageFile (Some pngFile) = \<lparr>valid = True, error = None\<rparr>
   \<and> file_type hugeFile = ''image/jpeg'' \<and> 10 * 1024 * 1024 < file_size hugeFile
   \<and> validateImageFile (Some hugeFile) =
        \<lparr>valid = False, error = Some ''File size must be under 10MB''\<rparr>"
  using validateImageFile_rules [of gifFile pngFile hugeFile]
  by (simp add: gifFile_def pngFile_def hugeFile_def)

section \<open>The severity bar\<close>

text \<open>
  The rounding is visible: a fifth is not a binary64 value, and seven hundredths times a
  hundred comes out above seven. The six levels go through the two rounded operations of
  the source without an error of rounding.
\<close>

lemma fl64_rounds:
  "fl64 (1 / 5) = 3602879701896397 / 18014398509481984"
  "fl64 (fl64 (7 / 100) * 100) = 7 + 1 / 2 ^ 50"
  "fl64 (5 / 2) = 5 / 2"
  by code_simp+

lemma percentage_levels:
  "percentage 0 = 0" "percentage 1 = 20" "percentage 2 = 40"
  "percentage 3 = 60" "percentage 4 = 80" "percentage 5 = 100"
  by code_simp+

lemma level_cases:
  fixes l :: int
  assumes "0 \<le> l" and "l \<le> 5"
  shows "l = 0 \<or> l = 1 \<or> l = 2 \<or> l = 3 \<or> l = 4 \<or> l = 5"
  using assms by arith

text \<open>
  Claim C4. For every integer level from 0 to 5 the width of the bar is exactly level * 20
  percent, and the colour is the green of the band the spec calls normal for the levels 0,
  1 and 2, the yellow of the band warning for level 3 and the red of the band critical for
  the levels 4 and 5.
\<close>

theorem severity_levels:
  assumes "0 \<le> l" and "l \<le> 5"
  shows "style_width (displaySeverityBar (of_int l) bar) = of_int (l * 20)
       \<and> style_backgroundColor (displaySeverityBar (of_int l) bar) =
           (if l \<le> 2 then ''#4caf50'' else if l = 3 then ''#ffc107'' else ''#f44336'')"
  using level_cases [OF assms]
  by (auto simp: displaySeverityBar_def severityBranch_def percentage_levels)

theorem severity_levels_witness:
  "(0::int) \<le> 4 \<and> (4::int) \<le> 5
   \<and> style_width (displaySeverityBar (of_int 4) emptyBar) = of_int (4 * 20)
   \<and> style_backgroundColor (displaySeverityBar (of_int 4) emptyBar) = ''#f44336''"
  using severity_levels [of 4 emptyBar] by simp

text \<open>
  Claim C9. For an integer level from 0 to 5 the third test of the colour, level above 2
  with the orange colour, is never the one that decides: the tests for at least 4 and for
  exactly 3 come first and leave no such level.
\<close>

theorem orange_branch_dead:
  assumes "0 \<le> l" and "l \<le> 5"
  shows "severityBranch (of_int l) \<noteq> Above2
       \<and> style_backgroundColor (displaySeverityBar (of_int l) bar) \<noteq> ''#ff9800''"
  using level_cases [OF assms]
  by (auto simp: displaySeverityBar_def severityBranch_def)

theorem orange_branch_dead_witness:
  "(0::int) \<le> 3 \<and> (3::int) \<le> 5
   \<and> severityBranch (of_int 3) \<noteq> Above2
   \<and> style_backgroundColor (displaySeverityBar (of_int 3) emptyBar) \<noteq> ''#ff9800''"
  using orange_branch_dead [of 3 emptyBar] by simp

text \<open>
  Claim C10. For every severity strictly between 2 and 4 other than 3, such as 2.5, the
  third test decides and the bar gets the orange colour #ff9800.
\<close>

theorem orange_branch_fraction:
  assumes "2 < v" and "v < 4" and "v \<noteq> 3"
  shows "severityBranch v = Above2
       \<and> style_backgroundColor (displaySeverityBar v bar) = ''#ff9800''"
  using assms by (simp add: displaySeverityBar_def severityBranch_def)

theorem orange_branch_fraction_witness:
  "(2::rat) < 5 / 2 \<and> (5 / 2 :: rat) < 4 \<and> (5 / 2 :: rat) \<noteq> 3
   \<and> severityBranch (5 / 2) = Above2
   \<and> style_backgroundColor (displaySeverityBar (5 / 2) emptyBar) = ''#ff9800''"
  using orange_branch_fraction [of "5 / 2" emptyBar] by simp

section \<open>The upload session\<close>

lemmas page_defs =
  samplePage_def firstFile_def validateImageFile_def pngFile_def allowedTypes_def maxSize_def
  handleFileUpload_def handleFileUpload_begin_def handleFileUpload_settle_def
  showError_def hideLoading_def showLoading_def setDisplay_def setButton_def
  selectedLanguage_def submit_def inSubmitting_def inFailed_def failureMessage_def
  lowQuality_def emptyError_def genericFailure_def noLanguagePage_def noFilePage_def Let_def

text \<open>A handler that hands a request to fetch leaves the page with a submission in flight.\<close>

lemma inSubmitting_showLoading: "inSubmitting ((showLoading w)\<lparr>fetches := fs\<rparr>)"
  by (simp add: inSubmitting_def showLoading_def setDisplay_def setButton_def
      split: option.splits)

lemma handleFileUpload_begin_inSubmitting:
  assumes "handleFileUpload_begin w = (w', Some r)"
  shows "inSubmitting w'"
proof -
  from assms have "w' = (showLoading (w\<lparr>preferredLanguage := Some (selectedLanguage w)\<rparr>))
      \<lparr>fetches := fetches (showLoading (w\<lparr>preferredLanguage := Some (selectedLanguage w)\<rparr>))
         @ [\<lparr>image = firstFile w, language_code = selectedLanguage w\<rparr>]\<rparr>"
    by (auto simp: handleFileUpload_begin_def Let_def split: if_splits)
  then show ?thesis by (simp only: inSubmitting_showLoading)
qed

text \<open>
  Claim C1. While a submission is in flight, a further submit does nothing: no request is
  made, and the page, with the file it holds, the stored language and the list of
  requests sent, stays as it is. The guard is the disabled upload button; the handler
  itself has no test of its own.
\<close>

theorem submit_in_flight_noop:
  assumes "inSubmitting w"
  shows "submit w = (w, None)"
proof (cases "uploadBtn w")
  case None
  then show ?thesis by (simp add: submit_def)
next
  case (Some b)
  from assms have "uploadBtn (showLoading w) = uploadBtn w"
    by (simp add: inSubmitting_def)
  with Some have eq: "b\<lparr>disabled := True, opacity := ''0.5''\<rparr> = b"
    by (simp add: showLoading_def setButton_def)
  from arg_cong [OF eq, of disabled] have "disabled b"
    by simp
  with Some show ?thesis by (simp add: submit_def)
qed

theorem submit_in_flight_noop_witness:
  "inSubmitting (fst (submit samplePage))
   \<and> submit (fst (submit samplePage)) = (fst (submit samplePage), None)
   \<and> snd (submit samplePage) = Some \<lparr>image = Some pngFile, language_code = ''hi''\<rparr>"
proof -
  have h: "inSubmitting (fst (submit samplePage))" by (simp add: page_defs)
  have r: "snd (submit samplePage) = Some \<lparr>image = Some pngFile, language_code = ''hi''\<rparr>"
    by (simp add: page_defs)
  from submit_in_flight_noop [OF h] h r show ?thesis by simp
qed

text \<open>
  The handler has no test for a submission in flight: run on such a page without the
  button in between, it hands a second request to fetch.
\<close>

lemma handleFileUpload_begin_unguarded:
  "inSubmitting (fst (submit samplePage))
   \<and> snd (handleFileUpload_begin (fst (submit samplePage)))
       = Some \<lparr>image = Some pngFile, language_code = ''hi''\<rparr>
   \<and> length (fetches (fst (handleFileUpload_begin (fst (submit samplePage))))) = 2"
  by (simp add: page_defs)

text \<open>The settling of a request does not touch the stored language.\<close>

lemma preferredLanguage_settle:
  "preferredLanguage (handleFileUpload_settle outcome w) = preferredLanguage w"
  by (simp add: handleFileUpload_settle_def hideLoading_def showError_def displayResults_def
      Let_def split: fetchOutcome.splits responseBody.splits option.splits prod.splits bool.splits)

text \<open>
  Claim C2, as stated, fails: the handler stores the language right after the validation
  of the file and before the request is sent. A submission of the sample page that the
  server answers with a failure ends with the error shown and with the stored language
  changed from en to hi.
\<close>

theorem preferredLanguage_changed_by_failed_submission:
  "inFailed ''Low image quality'' (handleFileUpload (Response False (Json lowQuality)) samplePage)
   \<and> preferredLanguage samplePage = Some ''en''
   \<and> preferredLanguage (handleFileUpload (Response False (Json lowQuality)) samplePage) = Some ''hi''"
  by (simp add: page_defs)

text \<open>The first part of the handler, for a file that passes the validation and for one that does not.\<close>

lemma handleFileUpload_begin_valid:
  assumes "valid (validateImageFile (firstFile w))"
  shows "snd (handleFileUpload_begin w) =
           Some \<lparr>image = firstFile w, language_code = selectedLanguage w\<rparr>"
    and "preferredLanguage (fst (handleFileUpload_begin w)) = Some (selectedLanguage w)"
    and "fetches (fst (handleFileUpload_begin w)) =
           fetches w @ [\<lparr>image = firstFile w, language_code = selectedLanguage w\<rparr>]"
  using assms by (simp_all add: handleFileUpload_begin_def Let_def showLoading_def)

lemma handleFileUpload_begin_invalid:
  assumes "\<not> valid (validateImageFile (firstFile w))"
  shows "snd (handleFileUpload_begin w) = None"
    and "preferredLanguage (fst (handleFileUpload_begin w)) = preferredLanguage w"
    and "fetches (fst (handleFileUpload_begin w)) = fetches w"
  using assms by (simp_all add: handleFileUpload_begin_def Let_def showError_def)

lemma handleFileUpload_preferredLanguage:
  "preferredLanguage (handleFileUpload outcome w) =
     preferredLanguage (fst (handleFileUpload_begin w))"
  by (cases "handleFileUpload_begin w")
     (simp add: handleFileUpload_def preferredLanguage_settle split: option.splits)

text \<open>
  Claim C2, amended. A run of the handler whose file passes the validation stores the
  language before the request is sent: the page with the request in flight holds the
  selected language, or en when no language is selected or the selection is empty, and so
  does the page after the request has settled, whatever its outcome. A run whose file is
  rejected by the validation sends no request and leaves the stored language as it was.
\<close>

theorem preferredLanguage_written_at_submission:
  "(valid (validateImageFile (firstFile w)) \<longrightarrow>
      snd (handleFileUpload_begin w) =
        Some \<lparr>image = firstFile w, language_code = selectedLanguage w\<rparr>
      \<and> fetches (fst (handleFileUpload_begin w)) =
          fetches w @ [\<lparr>image = firstFile w, language_code = selectedLanguage w\<rparr>]
      \<and> preferredLanguage (fst (handleFileUpload_begin w)) = Some (selectedLanguage w)
      \<and> preferredLanguage (handleFileUpload outcome w) = Some (selectedLanguage w))
   \<and> (\<not> valid (validateImageFile (firstFile w)) \<longrightarrow>
      snd (handleFileUpload_begin w) = None
      \<and> fetches (fst (handleFileUpload_begin w)) = fetches w
      \<and> preferredLanguage (fst (handleFileUpload_begin w)) = preferredLanguage w
      \<and> preferredLanguage (handleFileUpload outcome w) = preferredLanguage w)
   \<and> (languageCode w = None \<or> languageCode w = Some [] \<longrightarrow> selectedLanguage w = ''en'')
   \<and> (languageCode w = Some v \<and> v \<noteq> [] \<longrightarrow> selectedLanguage w = v)"
proof -
  have "selectedLanguage w = ''en''" if "languageCode w = None \<or> languageCode w = Some []"
    using that by (auto simp: selectedLanguage_def)
  moreover have "selectedLanguage w = v" if "languageCode w = Some v \<and> v \<noteq> []"
    using that by (simp add: selectedLanguage_def)
  ultimately show ?thesis
    by (simp add: handleFileUpload_begin_valid handleFileUpload_begin_invalid
        handleFileUpload_preferredLanguage)
qed

theorem preferredLanguage_written_at_submission_witness:
  "valid (validateImageFile (firstFile samplePage))
   \<and> preferredLanguage samplePage = Some ''en''
   \<and> snd (handleFileUpload_begin samplePage) =
       Some \<lparr>image = Some pngFile, language_code = ''hi''\<rparr>
   \<and> preferredLanguage (fst (handleFileUpload_begin samplePage)) = Some ''hi''
   \<and> preferredLanguage (handleFileUpload NetworkFailure samplePage) = Some ''hi''
   \<and> valid (validateImageFile (firstFile noLanguagePage))
   \<and> languageCode noLanguagePage = None
   \<and> preferredLanguage noLanguagePage = Some ''hi''
   \<and> preferredLanguage (fst (handleFileUpload_begin noLanguagePage)) = Some ''en''
   \<and> preferredLanguage (handleFileUpload NetworkFailure noLanguagePage) = Some ''en''
   \<and> \<not> valid (validateImageFile (firstFile noFilePage))
   \<and> snd (handleFileUpload_begin noFilePage) = None
   \<and> preferredLanguage (handleFileUpload NetworkFailure noFilePage) = Some ''en''"
proof -
  have a: "valid (validateImageFile (firstFile samplePage))" by (simp add: page_defs)
  have b: "languageCode samplePage = Some ''hi''" "firstFile samplePage = Some pngFile"
    "preferredLanguage samplePage = Some ''en''"
    by (simp_all add: samplePage_def firstFile_def)
  have c: "valid (validateImageFile (firstFile noLanguagePage))" by (simp add: page_defs)
  have d: "languageCode noLanguagePage = None" "preferredLanguage noLanguagePage = Some ''hi''"
    by (simp_all add: noLanguagePage_def)
  have e: "\<not> valid (validateImageFile (firstFile noFilePage))" by (simp add: page_defs)
  have f: "preferredLanguage noFilePage = Some ''en''"
    by (simp add: noFilePage_def samplePage_def)
  from preferredLanguage_written_at_submission [of samplePage NetworkFailure "''hi''"]
       preferredLanguage_written_at_submission [of noLanguagePage NetworkFailure "''hi''"]
       preferredLanguage_written_at_submission [of noFilePage NetworkFailure "''hi''"]
       a b c d e f
  show ?thesis by simp
qed

text \<open>What the page shows after showError and hideLoading.\<close>

lemma failedFrom_settled: "failedFrom m w (hideLoading (showError m w))"
  by (simp add: failedFrom_def hideLoading_def showError_def setDisplay_def setButton_def
      split: option.splits)

lemma inFailed_failedFrom:
  assumes "hasUploadElements w" and "failedFrom m w w'"
  shows "inFailed m w'"
  using assms by (auto simp: hasUploadElements_def failedFrom_def inFailed_def)

lemma settle_failure:
  assumes "\<not> ok \<or> \<not> success data"
  shows "handleFileUpload_settle (Response ok (Json data)) w =
           hideLoading (showError (failureMessage data) w)"
  using assms by (auto simp: handleFileUpload_settle_def)

lemma settle_unparsable:
  "handleFileUpload_settle (Response ok Unparsable) w =
     hideLoading (showError ''Something went wrong. Please refresh and try again'' w)"
  by (simp add: handleFileUpload_settle_def genericFailure_def)

text \<open>
  Claim C6, as stated, fails where the server sends the empty string as its error: the
  script takes the empty string as no message and shows the fallback.
\<close>

theorem empty_error_string_replaced:
  "env_error emptyError = Some []
   \<and> errorMessage (handleFileUpload (Response True (Json emptyError)) samplePage)
       = Some ''Upload failed. Please try again''
   \<and> errorMessage (handleFileUpload (Response True (Json emptyError)) samplePage) \<noteq> Some []"
  by (simp add: page_defs)

text \<open>
  Claim C6, amended. A response that is not ok, or whose envelope has success false, ends
  the submission in the failed state: the error box is displayed, the spinner and the
  results are hidden, the button is enabled again, and the message in the box is the
  error string of the envelope when that string is present and not empty, else the
  fallback "Upload failed. Please try again". A response whose body cannot be read ends
  it in the failed state with the message "Something went wrong. Please refresh and try
  again".
\<close>

theorem failure_message:
  "(\<not> ok \<or> \<not> success data \<longrightarrow>
      (env_error data = Some e \<and> e \<noteq> [] \<longrightarrow>
         failedFrom e w (handleFileUpload_settle (Response ok (Json data)) w)
         \<and> (hasUploadElements w \<longrightarrow>
              inFailed e (handleFileUpload_settle (Response ok (Json data)) w)))
      \<and> (env_error data = None \<or> env_error data = Some [] \<longrightarrow>
         failedFrom ''Upload failed. Please try again'' w
           (handleFileUpload_settle (Response ok (Json data)) w)
         \<and> (hasUploadElements w \<longrightarrow>
              inFailed ''Upload failed. Please try again''
                (handleFileUpload_settle (Response ok (Json data)) w))))
   \<and> failedFrom ''Something went wrong. Please refresh and try again'' w
        (handleFileUpload_settle (Response ok' Unparsable) w)
   \<and> (hasUploadElements w \<longrightarrow>
        inFailed ''Something went wrong. Please refresh and try again''
          (handleFileUpload_settle (Response ok' Unparsable) w))"
proof -
  have m1: "failureMessage data = e" if "env_error data = Some e \<and> e \<noteq> []"
    using that by (simp add: failureMessage_def)
  have m2: "failureMessage data = ''Upload failed. Please try again''"
    if "env_error data = None \<or> env_error data = Some []"
    using that by (auto simp: failureMessage_def)
  have f: "failedFrom (failureMessage data) w (handleFileUpload_settle (Response ok (Json data)) w)"
    if "\<not> ok \<or> \<not> success data"
    using settle_failure [OF that] failedFrom_settled by simp
  have u: "failedFrom ''Something went wrong. Please refresh and try again'' w
        (handleFileUpload_settle (Response ok' Unparsable) w)"
    using settle_unparsable failedFrom_settled by simp
  from m1 m2 f u inFailed_failedFrom show ?thesis by metis
qed

theorem failure_message_witness:
  "\<not> success lowQuality
   \<and> env_error lowQuality = Some ''Low image quality'' \<and> ''Low image quality'' \<noteq> []
   \<and> hasUploadElements (fst (submit samplePage))
   \<and> inFailed ''Low image quality''
         (handleFileUpload_settle (Response True (Json lowQuality)) (fst (submit samplePage)))
   \<and> errorMessage (handleFileUpload_settle (Response True (Json lowQuality)) (fst (submit samplePage)))
       = Some ''Low image quality''
   \<and> errorContainer (handleFileUpload_settle (Response True (Json lowQuality)) (fst (submit samplePage)))
       = Some ''block''
   \<and> loadingContainer (handleFileUpload_settle (Response True (Json lowQuality)) (fst (submit samplePage)))
       = Some ''none''
   \<and> uploadBtn (handleFileUpload_settle (Response True (Json lowQuality)) (fst (submit samplePage)))
       = Some \<lparr>disabled = False, opacity = ''1''\<rparr>
   \<and> env_error emptyError = Some []
   \<and> inFailed ''Upload failed. Please try again''
         (handleFileUpload_settle (Response True (Json emptyError)) (fst (submit samplePage)))
   \<and> inFailed ''Something went wrong. Please refresh and try again''
         (handleFileUpload_settle (Response False Unparsable) (fst (submit samplePage)))"
proof -
  have a: "\<not> success lowQuality" "\<not> success emptyError"
    by (simp_all add: lowQuality_def emptyError_def)
  have b: "env_error lowQuality = Some ''Low image quality''" by (simp add: lowQuality_def)
  have c: "hasUploadElements (fst (submit samplePage))"
    by (simp add: hasUploadElements_def page_defs)
  have d: "env_error emptyError = Some []" by (simp add: emptyError_def)
  have g: "uploadBtn (fst (submit samplePage)) = Some \<lparr>disabled = True, opacity = ''0.5''\<rparr>"
    by (simp add: page_defs)
  from failure_message [of True lowQuality "''Low image quality''" "fst (submit samplePage)" False]
       failure_message [of True emptyError "[]" "fst (submit samplePage)" False]
       a b c d g
  show ?thesis by (auto simp: inFailed_def failedFrom_def)
qed

section \<open>The recommendation formatter\<close>

text \<open>The text that formatRecommendation returns is its blocks, rendered and put together.\<close>

lemma formatRecommendation_blocks:
  "formatRecommendation text = concat (map render (recommendationBlocks text))"
proof -
  have j: "join [] xs = concat xs" for xs :: "string list"
    by (induction xs rule: induct_list012) simp_all
  have r: "render (blockOf p) = paragraphOf p" for p
    by (simp add: blockOf_def paragraphOf_def)
  show ?thesis
    by (simp add: formatRecommendation_def recommendationBlocks_def j r comp_def)
qed


text \<open>
  Claim C3, as stated, fails. The text of the claim has no blank line between its first
  line and the bullets, and the last pass splits at blank lines only: the result is not
  the paragraph followed by the list, but one block.
\<close>

theorem treatment_not_two_blocks:
  "recommendationBlocks treatmentText \<noteq>
     [Paragraph ''<strong>Apply fungicide</strong>'',
      ListBlock ''<ul><li>Water less</li><li>Remove leaves</li></ul>'']
   \<and> length (recommendationBlocks treatmentText) = 1"
  by code_simp


text \<open>
  Claim C3, amended. Formatting the text of the claim yields exactly one block, a
  paragraph that holds the emphasized span "Apply fungicide", a newline and, inside the
  paragraph, the list with the two items "Water less" and "Remove leaves". The same text
  with a blank line in front of the first bullet yields the two blocks of the claim, the
  paragraph with the emphasized span and then the list with the two items.
\<close>

theorem treatment_one_block:
  "recommendationBlocks treatmentText =
     [Paragraph (''<strong>Apply fungicide</strong>'' @ [NL] @
                 ''<ul><li>Water less</li><li>Remove leaves</li></ul>'')]
   \<and> formatRecommendation treatmentText =
       ''<p><strong>Apply fungicide</strong>'' @ [NL] @
       ''<ul><li>Water less</li><li>Remove leaves</li></ul></p>''
   \<and> recommendationBlocks treatmentTextBlankLine =
       [Paragraph ''<strong>Apply fungicide</strong>'',
        ListBlock ''<ul><li>Water less</li><li>Remove leaves</li></ul>'']"
  by code_simp


subsection \<open>Text without markup\<close>

lemma startsWith_Cons: "startsWith (c # cs) (p # ps) \<longleftrightarrow> c = p \<and> startsWith cs ps"
  by (simp add: startsWith_def)

lemma startsWith_Nil: "startsWith [] (p # ps) = False"
  by (simp add: startsWith_def)

lemma startsWith_empty: "startsWith s [] = True"
  by (simp add: startsWith_def)

lemmas startsWith_simps = startsWith_Cons startsWith_Nil startsWith_empty


text \<open>A pass leaves a text alone that has none of the characters the pass looks for.\<close>

lemma emphasisPass_no_asterisk: "CHR ''*'' \<notin> set s \<Longrightarrow> emphasisPass s = s"
  by (induction s) (auto simp: startsWith_Cons)

lemma join_splitLines: "join [NL] (splitLines s) = s"
proof (induction s)
  case Nil
  show ?case by simp
next
  case (Cons c cs)
  obtain l ls where ls: "splitLines cs = l # ls"
    by (cases cs; cases "splitLines cs") (auto simp: Let_def split: if_splits)
  with Cons show ?case
    by (cases ls) (auto simp: Let_def)
qed

lemma splitLines_chars: "l \<in> set (splitLines s) \<Longrightarrow> set l \<subseteq> set s"
proof (induction s arbitrary: l)
  case Nil
  then show ?case by simp
next
  case (Cons c cs)
  obtain k ks where ks: "splitLines cs = k # ks"
    by (cases cs; cases "splitLines cs") (auto simp: Let_def split: if_splits)
  have "set k \<subseteq> set cs" using Cons.IH [of k] ks by simp
  moreover have "\<And>x. x \<in> set ks \<Longrightarrow> set x \<subseteq> set cs" using Cons.IH ks by simp
  ultimately show ?case using Cons.prems ks
    by (auto simp: Let_def split: if_splits)
qed

lemma listItemPass_no_hyphen:
  assumes "CHR ''-'' \<notin> set s"
  shows "listItemPass s = s"
proof -
  have "listItemLine l = l" if "l \<in> set (splitLines s)" for l
  proof -
    from splitLines_chars [OF that] assms have "CHR ''-'' \<notin> set l" by auto
    then show ?thesis by (cases l) (auto simp: listItemLine_def startsWith_def)
  qed
  then have "map listItemLine (splitLines s) = splitLines s"
    by (simp add: map_idI)
  then show ?thesis by (simp add: listItemPass_def join_splitLines)
qed

lemma wrapListItems_no_tag: "CHR ''<'' \<notin> set s \<Longrightarrow> wrapListItems s = s"
  by (induction s) (auto simp: startsWith_Cons)

lemma mergeLists_no_tag: "CHR ''<'' \<notin> set s \<Longrightarrow> mergeLists s = s"
  by (induction s) (auto simp: startsWith_Cons listSeam_def)

lemma splitParagraphs_not_Nil: "splitParagraphs s \<noteq> []"
  by (induction s rule: splitParagraphs.induct) (auto simp: Let_def)

lemma splitParagraphs_chars: "p \<in> set (splitParagraphs s) \<Longrightarrow> set p \<subseteq> set s"
proof (induction s arbitrary: p rule: splitParagraphs.induct)
  case 1
  then show ?case by simp
next
  case (2 c)
  then show ?case by simp
next
  case (3 a b cs)
  show ?case
  proof (cases "a = NL \<and> b = NL")
    case True
    with 3 show ?thesis by fastforce
  next
    case False
    obtain k ks where ks: "splitParagraphs (b # cs) = k # ks"
      using splitParagraphs_not_Nil [of "b # cs"] by (cases "splitParagraphs (b # cs)") auto
    have "set k \<subseteq> set (b # cs)" using 3(2) [OF False, of k] ks by simp
    moreover have "\<And>x. x \<in> set ks \<Longrightarrow> set x \<subseteq> set (b # cs)"
      using 3(2) [OF False] ks by simp
    ultimately show ?thesis using 3(3) False ks
      by (auto simp: Let_def)
  qed
qed

lemma trim_whitespace:
  assumes "\<forall>c\<in>set p. isWhiteSpace c"
  shows "trim p = []"
proof -
  from assms have d: "dropWhile isWhiteSpace p = []"
    by (simp add: dropWhile_eq_Nil_conv)
  show ?thesis unfolding trim_def d by simp
qed

lemma whitespace_plain:
  "isWhiteSpace c \<Longrightarrow> c \<noteq> CHR ''*'' \<and> c \<noteq> CHR ''-'' \<and> c \<noteq> CHR ''<''"
  by (auto simp: isWhiteSpace_def)

lemma passes_whitespace:
  assumes "\<forall>c\<in>set text. isWhiteSpace c"
  shows "mergeLists (wrapListItems (listItemPass (emphasisPass text))) = text"
proof -
  from assms whitespace_plain have
    "CHR ''*'' \<notin> set text" "CHR ''-'' \<notin> set text" "CHR ''<'' \<notin> set text"
    by blast+
  then show ?thesis
    by (simp add: emphasisPass_no_asterisk listItemPass_no_hyphen wrapListItems_no_tag
        mergeLists_no_tag)
qed

lemma blocks_whitespace:
  assumes "\<forall>c\<in>set text. isWhiteSpace c"
  shows "map blockOf (splitParagraphs text) =
         replicate (length (splitParagraphs text)) (Paragraph [])"
proof -
  have "blockOf p = Paragraph []" if "p \<in> set (splitParagraphs text)" for p
  proof -
    from splitParagraphs_chars [OF that] assms have "\<forall>c\<in>set p. isWhiteSpace c" by auto
    then show ?thesis by (simp add: blockOf_def trim_whitespace startsWith_def)
  qed
  then show ?thesis by (simp add: map_replicate_const [symmetric] cong: map_cong)
qed


text \<open>
  Claim C7, as stated, fails for a text of white space that is not empty: the test at the
  start of formatRecommendation catches the empty text only. A single space is formatted
  to one empty paragraph.
\<close>

theorem blank_text_one_paragraph:
  "isWhiteSpace (CHR '' '')
   \<and> recommendationBlocks '' '' = [Paragraph []]
   \<and> formatRecommendation '' '' = ''<p></p>''
   \<and> recommendationBlocks '' '' \<noteq> []"
  by code_simp


text \<open>
  Claim C7, amended. The empty text yields no block and the empty result. A text that is
  not empty and consists of white space only yields one empty paragraph for each piece
  between blank lines, at least one, so the result is never empty.
\<close>

theorem whitespace_only_text:
  "recommendationBlocks [] = [] \<and> formatRecommendation [] = []
   \<and> (text \<noteq> [] \<and> (\<forall>c\<in>set text. isWhiteSpace c) \<longrightarrow>
        recommendationBlocks text =
          replicate (length (splitParagraphs text)) (Paragraph [])
        \<and> recommendationBlocks text \<noteq> []
        \<and> formatRecommendation text \<noteq> [])"
proof -
  have e: "recommendationBlocks [] = [] \<and> formatRecommendation [] = []"
    by (simp add: recommendationBlocks_def formatRecommendation_def)
  have "recommendationBlocks text = replicate (length (splitParagraphs text)) (Paragraph [])
        \<and> recommendationBlocks text \<noteq> [] \<and> formatRecommendation text \<noteq> []"
    if ne: "text \<noteq> []" and ws: "\<forall>c\<in>set text. isWhiteSpace c"
  proof -
    from ne have b: "recommendationBlocks text = replicate (length (splitParagraphs text)) (Paragraph [])"
      by (simp add: recommendationBlocks_def passes_whitespace [OF ws] blocks_whitespace [OF ws])
    obtain n where n: "length (splitParagraphs text) = Suc n"
      using splitParagraphs_not_Nil [of "text"] by (cases "splitParagraphs text") auto
    from b n have "recommendationBlocks text \<noteq> []" by simp
    moreover from b n have "formatRecommendation text \<noteq> []"
      by (simp add: formatRecommendation_blocks)
    ultimately show ?thesis using b by simp
  qed
  with e show ?thesis by blast
qed

theorem whitespace_only_text_witness:
  "'' '' @ [NL, NL] \<noteq> [] \<and> isWhiteSpace (CHR '' '') \<and> isWhiteSpace NL
   \<and> recommendationBlocks ('' '' @ [NL, NL]) = [Paragraph [], Paragraph []]
   \<and> formatRecommendation ('' '' @ [NL, NL]) \<noteq> []"
proof -
  have a: "\<forall>c\<in>set ('' '' @ [NL, NL]). isWhiteSpace c" by (simp add: isWhiteSpace_def)
  have b: "length (splitParagraphs ('' '' @ [NL, NL])) = 2" by simp
  from whitespace_only_text [of "'' '' @ [NL, NL]"] a b show ?thesis
    by (simp add: numeral_2_eq_2)
qed


subsection \<open>The emphasis pass\<close>

text \<open>
  Up to the first marker nothing changes, and the span that opens there is closed by the
  first marker that follows on the same line.
\<close>

lemma emphasisPass_skip:
  "\<not> hasMarker (a @ ''*'') \<Longrightarrow> emphasisPass (a @ ''**'' @ t) = a @ emphasisPass (''**'' @ t)"
proof (induction a)
  case Nil
  show ?case by simp
next
  case (Cons x a)
  then have "\<not> startsWith (x # a @ ''**'' @ t) ''**''"
    by (cases a) (auto simp: startsWith_simps)
  with Cons show ?case by simp
qed

lemma lazyUntil_first_close:
  "\<not> hasMarker (b @ ''*'') \<Longrightarrow> \<forall>c\<in>set b. \<not> isLineTerminator c \<Longrightarrow>
   lazyUntil (\<lambda>x. \<not> isLineTerminator x) ''**'' (b @ ''**'' @ r) = Some (b, r)"
proof (induction b)
  case Nil
  show ?case by (simp add: startsWith_def)
next
  case (Cons x b)
  then have "\<not> startsWith (x # b @ ''**'' @ r) ''**''"
    by (cases b) (auto simp: startsWith_simps)
  with Cons show ?case by simp
qed


text \<open>A text whose lines hold one marker at most is left as it is.\<close>

lemma loneMarkers_weaken: "loneMarkers seen s \<Longrightarrow> loneMarkers False s"
  by (induction seen s rule: loneMarkers.induct) (auto split: if_splits)

lemma asterisk_not_terminator: "\<not> isLineTerminator (CHR ''*'')"
  by (simp add: isLineTerminator_def)

lemma loneMarkers_no_close:
  "loneMarkers True s \<Longrightarrow> lazyUntil (\<lambda>x. \<not> isLineTerminator x) ''**'' s = None"
proof (induction s rule: induct_list012)
  case 1
  show ?case by simp
next
  case (2 x)
  show ?case by (simp add: startsWith_def)
next
  case (3 a b cs)
  then show ?case
    by (auto simp: startsWith_Cons asterisk_not_terminator split: if_splits)
qed

lemma loneMarkers_overlap:
  assumes "loneMarkers True rest"
  shows "loneMarkers False (CHR ''*'' # rest)"
proof (cases rest)
  case Nil
  then show ?thesis by simp
next
  case (Cons x r')
  show ?thesis
  proof (cases "x = CHR ''*''")
    case True
    with assms Cons have "loneMarkers True r'"
      by (cases r') (auto simp: asterisk_not_terminator split: if_splits)
    with True Cons show ?thesis by (simp add: asterisk_not_terminator)
  next
    case False
    with Cons loneMarkers_weaken [OF assms] show ?thesis
      by (simp add: asterisk_not_terminator)
  qed
qed

lemma loneMarkers_tail:
  "loneMarkers False (c # cs) \<Longrightarrow> \<not> startsWith (c # cs) ''**'' \<Longrightarrow> loneMarkers False cs"
  by (cases cs) (auto simp: startsWith_Cons startsWith_def split: if_splits)

lemma emphasisPass_lone: "loneMarkers False s \<Longrightarrow> emphasisPass s = s"
proof (induction s)
  case Nil
  show ?case by simp
next
  case (Cons c cs)
  show ?case
  proof (cases "startsWith (c # cs) ''**''")
    case True
    then obtain rest where c: "c = CHR ''*''" and cs: "cs = CHR ''*'' # rest"
      by (cases cs) (auto simp: startsWith_Cons startsWith_Nil)
    with Cons.prems have r: "loneMarkers True rest"
      by (simp add: asterisk_not_terminator)
    from loneMarkers_no_close [OF r] loneMarkers_overlap [OF r] Cons.IH c cs True
    show ?thesis by simp
  next
    case False
    with Cons.IH loneMarkers_tail [OF Cons.prems False] show ?thesis by simp
  qed
qed


text \<open>
  Claim C8, as stated, fails for a pair of markers with a line break between them: the dot
  of the expression does not accept a line terminator, so the pair is no match and both
  markers stay in the text.
\<close>

theorem emphasis_not_across_lines:
  "emphasisPass (''**a'' @ [NL] @ ''b**'') = ''**a'' @ [NL] @ ''b**''
   \<and> formatRecommendation (''**a'' @ [NL] @ ''b**'') = ''<p>**a'' @ [NL] @ ''b**</p>''"
  by code_simp


text \<open>
  Lines are handled one by one: a match never reaches over a line terminator, so the pass
  on a text is the pass on what stands in front of a terminator, the terminator, and the
  pass on what follows.
\<close>

lemma lazyUntil_line:
  assumes "isLineTerminator t"
  shows "lazyUntil (\<lambda>x. \<not> isLineTerminator x) ''**'' (s @ t # rest) =
         map_option (\<lambda>(b, r). (b, r @ t # rest))
           (lazyUntil (\<lambda>x. \<not> isLineTerminator x) ''**'' s)"
proof (induction s)
  case Nil
  from assms have "t \<noteq> CHR ''*''" using asterisk_not_terminator by auto
  with assms show ?case by (simp add: startsWith_simps)
next
  case (Cons c cs)
  from assms have t: "t \<noteq> CHR ''*''" using asterisk_not_terminator by auto
  have sw: "startsWith (c # cs @ t # rest) ''**'' = startsWith (c # cs) ''**''"
    using t by (cases cs) (auto simp: startsWith_simps)
  show ?case
  proof (cases "startsWith (c # cs) ''**''")
    case True
    then obtain ds where "cs = CHR ''*'' # ds"
      by (cases cs) (auto simp: startsWith_simps)
    with True sw show ?thesis by simp
  next
    case False
    with sw Cons show ?thesis by (simp split: option.splits)
  qed
qed

lemma emphasisPass_lines:
  assumes "isLineTerminator t"
  shows "emphasisPass (l @ t # rest) = emphasisPass l @ t # emphasisPass rest"
proof (induction l rule: emphasisPass.induct)
  case 1
  from assms have "t \<noteq> CHR ''*''" using asterisk_not_terminator by auto
  then show ?case by (simp add: startsWith_simps)
next
  case (2 c cs)
  from assms have t: "t \<noteq> CHR ''*''" using asterisk_not_terminator by auto
  have sw: "startsWith (c # cs @ t # rest) ''**'' = startsWith (c # cs) ''**''"
    using t by (cases cs) (auto simp: startsWith_simps)
  show ?case
  proof (cases "startsWith (c # cs) ''**''")
    case False
    with sw 2 show ?thesis by simp
  next
    case True
    then obtain ds where cs: "cs = CHR ''*'' # ds"
      by (cases cs) (auto simp: startsWith_simps)
    show ?thesis
    proof (cases "lazyUntil (\<lambda>x. \<not> isLineTerminator x) ''**'' ds")
      case None
      have n1: "lazyUntil (\<lambda>x. \<not> isLineTerminator x) ''**'' (drop 2 (c # cs)) = None"
        using None cs by simp
      have n2: "lazyUntil (\<lambda>x. \<not> isLineTerminator x) ''**'' (drop 2 (c # cs @ t # rest)) = None"
        using None cs lazyUntil_line [OF assms, of ds rest] by simp
      have e1: "emphasisPass (c # cs @ t # rest) = c # emphasisPass (cs @ t # rest)"
        by (subst emphasisPass.simps(2)) (simp only: sw True n2 if_True option.case)
      have e2: "emphasisPass (c # cs) = c # emphasisPass cs"
        by (subst emphasisPass.simps(2)) (simp only: True n1 if_True option.case)
      show ?thesis
        by (simp only: append_Cons e1 e2 2(1) [OF True n1])
    next
      case (Some br)
      obtain b r where br: "br = (b, r)" by (cases br)
      have s1: "lazyUntil (\<lambda>x. \<not> isLineTerminator x) ''**'' (drop 2 (c # cs)) = Some br"
        using Some cs by simp
      have "emphasisPass (r @ t # rest) = emphasisPass r @ t # emphasisPass rest"
        using 2(2) [OF True s1, of b r] br by simp
      with True sw cs Some br lazyUntil_line [OF assms, of ds rest] show ?thesis by simp
    qed
  qed
qed

text \<open>
  The three rules of the pass, at a line terminator, at the first pair of a line and on
  lines with one marker at most, leave no text open: a line that holds two markers starts
  with a pair as the second rule wants it, and every function that obeys the three rules
  is the pass.
\<close>

lemma first_marker:
  "\<forall>c\<in>set s. \<not> isLineTerminator c \<Longrightarrow> \<not> loneMarkers True s \<Longrightarrow>
   \<exists>b r. s = b @ ''**'' @ r \<and> \<not> hasMarker (b @ ''*'')"
proof (induction s rule: induct_list012)
  case 1
  then show ?case by simp
next
  case (2 x)
  then show ?case by simp
next
  case (3 x y cs)
  show ?case
  proof (cases "x = CHR ''*'' \<and> y = CHR ''*''")
    case True
    then have "x # y # cs = [] @ ''**'' @ cs \<and> \<not> hasMarker ([] @ ''*'')"
      by (simp add: startsWith_simps)
    then show ?thesis by blast
  next
    case False
    with 3(3,4) have "\<not> loneMarkers True (y # cs)" by auto
    with 3(2,3) obtain b r where br: "y # cs = b @ ''**'' @ r" "\<not> hasMarker (b @ ''*'')"
      by auto
    from br(1) False have "\<not> startsWith (x # b @ ''*'') ''**''"
      by (cases b) (auto simp: startsWith_simps)
    with br have "x # y # cs = (x # b) @ ''**'' @ r \<and> \<not> hasMarker ((x # b) @ ''*'')"
      by simp
    then show ?thesis by blast
  qed
qed

lemma first_pair:
  "\<forall>c\<in>set s. \<not> isLineTerminator c \<Longrightarrow> \<not> loneMarkers False s \<Longrightarrow>
   \<exists>a rest. s = a @ ''**'' @ rest \<and> \<not> hasMarker (a @ ''*'') \<and> \<not> loneMarkers True rest"
proof (induction s rule: induct_list012)
  case 1
  then show ?case by simp
next
  case (2 x)
  then show ?case by simp
next
  case (3 x y cs)
  show ?case
  proof (cases "x = CHR ''*'' \<and> y = CHR ''*''")
    case True
    with 3(3,4) have "x # y # cs = [] @ ''**'' @ cs \<and> \<not> hasMarker ([] @ ''*'')
        \<and> \<not> loneMarkers True cs"
      by (auto simp: startsWith_simps)
    then show ?thesis by blast
  next
    case False
    with 3(3,4) have "\<not> loneMarkers False (y # cs)" by auto
    with 3(2,3) obtain a rest where ar: "y # cs = a @ ''**'' @ rest" "\<not> hasMarker (a @ ''*'')"
      "\<not> loneMarkers True rest"
      by auto
    from ar(1) False have "\<not> startsWith (x # a @ ''*'') ''**''"
      by (cases a) (auto simp: startsWith_simps)
    with ar have "x # y # cs = (x # a) @ ''**'' @ rest \<and> \<not> hasMarker ((x # a) @ ''*'')
        \<and> \<not> loneMarkers True rest"
      by simp
    then show ?thesis by blast
  qed
qed

lemma emphasis_rules_complete:
  assumes r1: "\<And>t l rest. isLineTerminator t \<Longrightarrow> f (l @ t # rest) = f l @ t # f rest"
    and r2: "\<And>a b r. \<not> hasMarker (a @ ''*'') \<Longrightarrow> \<not> hasMarker (b @ ''*'') \<Longrightarrow>
               \<forall>c\<in>set b. \<not> isLineTerminator c \<Longrightarrow>
               f (a @ ''**'' @ b @ ''**'' @ r) = a @ ''<strong>'' @ b @ ''</strong>'' @ f r"
    and r3: "\<And>s. loneMarkers False s \<Longrightarrow> f s = s"
  shows "f s = emphasisPass s"
proof (induction s rule: length_induct)
  case (1 s)
  show ?case
  proof (cases "\<exists>t\<in>set s. isLineTerminator t")
    case True
    then obtain l t rest where s: "s = l @ t # rest" and t: "isLineTerminator t"
      by (auto dest: split_list)
    from s 1 have "f l = emphasisPass l" "f rest = emphasisPass rest" by simp_all
    with s t r1 [OF t, of l rest] emphasisPass_lines [OF t, of l rest] show ?thesis by simp
  next
    case False
    then have nl: "\<forall>c\<in>set s. \<not> isLineTerminator c" by simp
    show ?thesis
    proof (cases "loneMarkers False s")
      case True
      with r3 emphasisPass_lone show ?thesis by simp
    next
      case False
      from first_pair [OF nl False] obtain a rest where
        ar: "s = a @ ''**'' @ rest" "\<not> hasMarker (a @ ''*'')" "\<not> loneMarkers True rest"
        by blast
      from ar(1) nl have "\<forall>c\<in>set rest. \<not> isLineTerminator c" by simp
      from first_marker [OF this ar(3)] obtain b r where
        br: "rest = b @ ''**'' @ r" "\<not> hasMarker (b @ ''*'')"
        by blast
      from br(1) ar(1) nl have lb: "\<forall>c\<in>set b. \<not> isLineTerminator c" by simp
      from ar(1) br(1) 1 have ih: "f r = emphasisPass r" by simp
      have "emphasisPass (a @ ''**'' @ b @ ''**'' @ r) =
            a @ ''<strong>'' @ b @ ''</strong>'' @ emphasisPass r"
        using emphasisPass_skip [OF ar(2), of "b @ ''**'' @ r"]
          lazyUntil_first_close [OF br(2) lb, of r]
        by (simp add: startsWith_def)
      with r2 [OF ar(2) br(2) lb, of r] ih ar(1) br(1) show ?thesis by simp
    qed
  qed
qed

text \<open>
  Claim C8, amended. In the emphasis pass every pair of markers on one line becomes an
  emphasized span, and the first closing marker ends the span. The pass handles the
  lines one by one: at a line terminator the result is the pass on the text in front,
  the terminator and the pass on the text behind. Where no marker stands in front of the
  opening one, and the content has no line terminator and no marker before the closing
  one, the pass keeps the text in front, wraps the content and goes on behind the
  closing marker. Markers without a partner on their line, a pair with a line break
  between them among them, are kept: a text whose lines hold one marker at most comes
  out unchanged. These three rules fix the result for every text, and the pass is a
  total function, so it gives a result for every text.
\<close>

theorem emphasis_within_line:
  "(isLineTerminator t \<longrightarrow>
      emphasisPass (l @ t # rest) = emphasisPass l @ t # emphasisPass rest)
   \<and> (\<not> hasMarker (a @ ''*'') \<and> \<not> hasMarker (b @ ''*'') \<and> (\<forall>c\<in>set b. \<not> isLineTerminator c) \<longrightarrow>
      emphasisPass (a @ ''**'' @ b @ ''**'' @ r) =
        a @ ''<strong>'' @ b @ ''</strong>'' @ emphasisPass r)
   \<and> (loneMarkers False s \<longrightarrow> emphasisPass s = s)"
proof -
  have "emphasisPass (a @ ''**'' @ b @ ''**'' @ r) =
        a @ ''<strong>'' @ b @ ''</strong>'' @ emphasisPass r"
    if a: "\<not> hasMarker (a @ ''*'')" and b: "\<not> hasMarker (b @ ''*'')"
      and l: "\<forall>c\<in>set b. \<not> isLineTerminator c"
  proof -
    have "emphasisPass (''**'' @ b @ ''**'' @ r) = ''<strong>'' @ b @ ''</strong>'' @ emphasisPass r"
      using lazyUntil_first_close [OF b l, of r] by (simp add: startsWith_def)
    with emphasisPass_skip [OF a, of "b @ ''**'' @ r"] show ?thesis by simp
  qed
  then show ?thesis using emphasisPass_lone emphasisPass_lines by blast
qed

theorem emphasis_within_line_witness:
  "\<not> hasMarker (''Use '' @ ''*'') \<and> \<not> hasMarker (''a'' @ ''*'')
   \<and> \<not> isLineTerminator (CHR ''a'')
   \<and> loneMarkers False ''b**''
   \<and> emphasisPass (''Use '' @ ''**'' @ ''a'' @ ''**'' @ ''b**'') = ''Use <strong>a</strong>b**''
   \<and> isLineTerminator NL
   \<and> loneMarkers False ''**x''
   \<and> emphasisPass twoLineText = ''**x'' @ [NL] @ ''<strong>a</strong>''"
proof -
  have a: "\<not> hasMarker (''Use '' @ ''*'')" "\<not> hasMarker ([] @ ''*'')"
    by (simp_all add: startsWith_def)
  have b: "\<not> hasMarker (''a'' @ ''*'')" by (simp add: startsWith_def)
  have c: "\<forall>c\<in>set ''a''. \<not> isLineTerminator c" by (simp add: isLineTerminator_def)
  have d: "loneMarkers False ''b**''" "loneMarkers False ''**x''" "loneMarkers False []"
    by (simp_all add: isLineTerminator_def)
  have e: "isLineTerminator NL" by (simp add: isLineTerminator_def)
  from emphasis_within_line [of NL "''**x''" "''**a**''" "''Use ''" "''a''" "''b**''" "''b**''"]
       emphasis_within_line [of NL "''**x''" "''**a**''" "[]" "''a''" "[]" "''**x''"]
       emphasis_within_line [of NL "''**x''" "''**a**''" "[]" "''a''" "[]" "[]"]
       a b c d e
  show ?thesis by (simp add: twoLineText_def)
qed

end
